theory Spec2Isabelle
  imports Complex_Main
begin

section \<open>Sample values\<close>

text \<open>
  The notebooks compute on arrays of floating-point samples. A sample is modelled as an
  exact real number or one of the three special values of the floating-point format:
  the two infinities and the not-a-number value, which numpy also uses as the no-data
  sentinel (\<open>np.nan\<close>). Arithmetic on finite samples is exact (no rounding, no overflow,
  no signed zero); arithmetic that involves a special value, and division by zero,
  follow the floating-point rules: numpy returns the special value (with a warning) and
  raises no exception.
\<close>

datatype fl = Fin real | PInf | NInf | NaN

fun fneg :: "fl \<Rightarrow> fl" where
  "fneg (Fin a) = Fin (- a)"
| "fneg PInf = NInf"
| "fneg NInf = PInf"
| "fneg NaN = NaN"

fun fabs :: "fl \<Rightarrow> fl" where
  "fabs (Fin a) = Fin \<bar>a\<bar>"
| "fabs PInf = PInf"
| "fabs NInf = PInf"
| "fabs NaN = NaN"

fun fadd :: "fl \<Rightarrow> fl \<Rightarrow> fl" where
  "fadd (Fin a) (Fin b) = Fin (a + b)"
| "fadd NaN y = NaN"
| "fadd x NaN = NaN"
| "fadd PInf NInf = NaN"
| "fadd NInf PInf = NaN"
| "fadd PInf y = PInf"
| "fadd x PInf = PInf"
| "fadd NInf y = NInf"
| "fadd x NInf = NInf"

definition fsub :: "fl \<Rightarrow> fl \<Rightarrow> fl" where
  "fsub x y = fadd x (fneg y)"

text \<open>The sign of an infinity times (or divided by) a finite sample.\<close>

definition signed_inf :: "bool \<Rightarrow> fl" where
  "signed_inf positive = (if positive then PInf else NInf)"

fun fmul :: "fl \<Rightarrow> fl \<Rightarrow> fl" where
  "fmul (Fin a) (Fin b) = Fin (a * b)"
| "fmul NaN y = NaN"
| "fmul x NaN = NaN"
| "fmul (Fin a) y = (if a = 0 then NaN else signed_inf ((0 < a) = (y = PInf)))"
| "fmul x (Fin b) = (if b = 0 then NaN else signed_inf ((0 < b) = (x = PInf)))"
| "fmul x y = signed_inf (x = y)"

fun fdiv :: "fl \<Rightarrow> fl \<Rightarrow> fl" where
  "fdiv (Fin a) (Fin b) =
     (if b \<noteq> 0 then Fin (a / b)
      else if a = 0 then NaN
      else signed_inf (0 < a))"
| "fdiv NaN y = NaN"
| "fdiv x NaN = NaN"
| "fdiv (Fin a) y = Fin 0"
| "fdiv x (Fin b) = signed_inf ((0 \<le> b) = (x = PInf))"
| "fdiv x y = NaN"

fun flog10 :: "fl \<Rightarrow> fl" where
  "flog10 (Fin a) = (if 0 < a then Fin (log 10 a) else if a = 0 then NInf else NaN)"
| "flog10 PInf = PInf"
| "flog10 NInf = NaN"
| "flog10 NaN = NaN"

text \<open>\<open>==\<close> on samples: not-a-number compares unequal to everything, itself included.\<close>

fun feq :: "fl \<Rightarrow> fl \<Rightarrow> bool" where
  "feq NaN y = False"
| "feq x NaN = False"
| "feq x y = (x = y)"

text \<open>A running sum, as the accumulation loops compute it.\<close>

definition fsum :: "fl list \<Rightarrow> fl" where
  "fsum xs = foldl fadd (Fin 0) xs"

section \<open>Arrays\<close>

text \<open>
  A two-dimensional array is the list of its rows (axis 0 indexes the rows, \<open>y\<close>;
  axis 1 the columns, \<open>x\<close>). An array with extra leading dimensions (such as time) is a
  stack of arrays with one dimension less.
\<close>

type_synonym arr = "fl list list"

datatype ndarr = Core arr | Stack "ndarr list"

definition rect :: "nat \<Rightarrow> nat \<Rightarrow> 'a list list \<Rightarrow> bool" where
  "rect h w a = (length a = h \<and> list_all (\<lambda>row. length row = w) a)"

definition ncols :: "'a list list \<Rightarrow> nat" where
  "ncols a = (case a of [] \<Rightarrow> 0 | row # _ \<Rightarrow> length row)"

definition column :: "'a list list \<Rightarrow> nat \<Rightarrow> 'a list" where
  "column a c = map (\<lambda>row. row ! c) a"

definition tabulate2 :: "nat \<Rightarrow> nat \<Rightarrow> (nat \<Rightarrow> nat \<Rightarrow> 'a) \<Rightarrow> 'a list list" where
  "tabulate2 h w f = map (\<lambda>r. map (\<lambda>c. f r c) [0..<w]) [0..<h]"

text \<open>Elementwise operations of numpy on arrays of one shape, and with a scalar.\<close>

definition arr_map2 :: "(fl \<Rightarrow> fl \<Rightarrow> fl) \<Rightarrow> arr \<Rightarrow> arr \<Rightarrow> arr" where
  "arr_map2 f a b = map2 (map2 f) a b"

definition arr_map :: "(fl \<Rightarrow> fl) \<Rightarrow> arr \<Rightarrow> arr" where
  "arr_map f a = map (map f) a"

definition arr_sq :: "arr \<Rightarrow> arr" where
  "arr_sq a = arr_map (\<lambda>x. fmul x x) a"

section \<open>The uniform filter of scipy.ndimage\<close>

text \<open>
  \<open>lee_filter\<close> calls \<open>scipy.ndimage.uniform_filter(img, size)\<close> with the defaults
  \<open>mode="reflect"\<close> and \<open>origin=0\<close>. The library is not part of the repository; it is
  modelled as the library defines it. The boundary mode \<open>reflect\<close> extends a line
  \<open>a b c d\<close> to \<open>d c b a | a b c d | d c b a\<close>, repeated as far as needed. The
  one-dimensional filter extends each line by \<open>size div 2\<close> samples before and
  \<open>size - size div 2 - 1\<close> samples after it and returns, at each position, the mean of
  \<open>size\<close> consecutive samples of the extended line. The multidimensional filter
  applies the one-dimensional filter along axis 0 and then along axis 1, and skips
  every axis whose size is not greater than 1; with no axis left the input is copied.
\<close>

datatype error = RuntimeError string

definition reflect_idx :: "nat \<Rightarrow> int \<Rightarrow> nat" where
  "reflect_idx n i =
     (let p = 2 * int n; j = i mod p
      in nat (if j < int n then j else p - 1 - j))"

definition extend_line :: "'a list \<Rightarrow> nat \<Rightarrow> nat \<Rightarrow> 'a list" where
  "extend_line xs size1 size2 =
     map (\<lambda>i. xs ! reflect_idx (length xs) (int i - int size1))
       [0..<size1 + length xs + size2]"

definition uniform_line :: "nat \<Rightarrow> fl list \<Rightarrow> fl list" where
  "uniform_line filter_size xs =
     (let size1 = filter_size div 2;
          size2 = filter_size - size1 - 1;
          ext = extend_line xs size1 size2
      in map (\<lambda>l. fdiv (fsum (take filter_size (drop l ext))) (Fin (real filter_size)))
           [0..<length xs])"

definition apply_along_axis :: "nat \<Rightarrow> (fl list \<Rightarrow> fl list) \<Rightarrow> arr \<Rightarrow> arr" where
  "apply_along_axis axis f a =
     (if axis = 0
      then (let cols = map (\<lambda>c. f (column a c)) [0..<ncols a]
            in map (\<lambda>r. map (\<lambda>col. col ! r) cols) [0..<length a])
      else map f a)"

definition uniform_filter1d :: "arr \<Rightarrow> int \<Rightarrow> nat \<Rightarrow> error + arr" where
  "uniform_filter1d input sz axis =
     (if sz < 1 then Inl (RuntimeError ''incorrect filter size'')
      else Inr (apply_along_axis axis (uniform_line (nat sz)) input))"

fun filter_axes :: "arr \<Rightarrow> (nat \<times> int) list \<Rightarrow> error + arr" where
  "filter_axes input [] = Inr input"
| "filter_axes input ((axis, sz) # axes) =
     (case uniform_filter1d input sz axis of
        Inl e \<Rightarrow> Inl e
      | Inr output \<Rightarrow> filter_axes output axes)"

definition uniform_filter :: "arr \<Rightarrow> int \<Rightarrow> error + arr" where
  "uniform_filter input sz =
     filter_axes input (filter (\<lambda>(axis, s). 1 < s) [(0, sz), (1, sz)])"

section \<open>The Lee filter\<close>

text \<open>
  \<open>np.var(img)\<close> is the mean of the squared absolute deviations from the mean of all
  samples of the array (no degrees-of-freedom correction).
\<close>

definition np_mean :: "fl list \<Rightarrow> fl" where
  "np_mean xs = fdiv (fsum xs) (Fin (real (length xs)))"

definition np_var :: "arr \<Rightarrow> fl" where
  "np_var a =
     (let xs = concat a; m = np_mean xs
      in np_mean (map (\<lambda>x. (let d = fabs (fsub x m) in fmul d d)) xs))"

definition lee_filter :: "arr \<Rightarrow> int \<Rightarrow> error + arr" where
  "lee_filter img sz =
     (case uniform_filter img sz of
        Inl e \<Rightarrow> Inl e
      | Inr img_mean \<Rightarrow>
     (case uniform_filter (arr_sq img) sz of
        Inl e \<Rightarrow> Inl e
      | Inr img_sqr_mean \<Rightarrow>
          (let img_variance = arr_map2 fsub img_sqr_mean (arr_sq img_mean);
               overall_variance = np_var img;
               img_weights =
                 arr_map2 fdiv img_variance
                   (arr_map (\<lambda>v. fadd v overall_variance) img_variance);
               img_output =
                 arr_map2 fadd img_mean (arr_map2 fmul img_weights (arr_map2 fsub img img_mean))
           in Inr img_output)))"

text \<open>
  \<open>apply_lee_filter\<close> replaces the missing samples by 0 and lets \<open>xr.apply_ufunc\<close>,
  with the core dimensions \<open>y\<close> and \<open>x\<close> and \<open>vectorize=True\<close>, call \<open>lee_filter\<close> on
  every two-dimensional slice; an exception raised for one slice ends the whole call.
\<close>

fun collect :: "(error + 'a) list \<Rightarrow> error + 'a list" where
  "collect [] = Inr []"
| "collect (x # xs) =
     (case x of
        Inl e \<Rightarrow> Inl e
      | Inr y \<Rightarrow> (case collect xs of Inl e \<Rightarrow> Inl e | Inr ys \<Rightarrow> Inr (y # ys)))"

fun fillna :: "fl \<Rightarrow> ndarr \<Rightarrow> ndarr" where
  "fillna v (Core a) = Core (arr_map (\<lambda>x. if x = NaN then v else x) a)"
| "fillna v (Stack xs) = Stack (map (fillna v) xs)"

fun apply_ufunc :: "(arr \<Rightarrow> error + arr) \<Rightarrow> ndarr \<Rightarrow> error + ndarr" where
  "apply_ufunc f (Core a) = (case f a of Inl e \<Rightarrow> Inl e | Inr b \<Rightarrow> Inr (Core b))"
| "apply_ufunc f (Stack xs) =
     (case collect (map (apply_ufunc f) xs) of
        Inl e \<Rightarrow> Inl e
      | Inr ys \<Rightarrow> Inr (Stack ys))"

definition apply_lee_filter :: "ndarr \<Rightarrow> int \<Rightarrow> error + ndarr" where
  "apply_lee_filter data_array sz =
     (let data_array_filled = fillna (Fin 0) data_array
      in apply_ufunc (\<lambda>img. lee_filter img sz) data_array_filled)"

text \<open>The two-dimensional slices of an array, in index order.\<close>

fun slices :: "ndarr \<Rightarrow> arr list" where
  "slices (Core a) = [a]"
| "slices (Stack xs) = concat (map slices xs)"

section \<open>Masking and conversion to decibels\<close>

text \<open>
  \<open>xr.where(mask == 0, band, np.nan)\<close> and \<open>10 * np.log10(band)\<close>, both elementwise.
\<close>

definition xr_where :: "bool list list \<Rightarrow> arr \<Rightarrow> fl \<Rightarrow> arr" where
  "xr_where cond x y = map2 (map2 (\<lambda>c d. if c then d else y)) cond x"

definition filtered_masked :: "arr \<Rightarrow> arr \<Rightarrow> arr" where
  "filtered_masked mask_band filtered =
     xr_where (map (map (\<lambda>m. feq m (Fin 0))) mask_band) filtered NaN"

definition to_db :: "fl \<Rightarrow> fl" where
  "to_db x = fmul (Fin 10) (flog10 x)"

definition filtered_masked_db :: "arr \<Rightarrow> arr" where
  "filtered_masked_db band = arr_map to_db band"

section \<open>The filter as the specification words it\<close>

text \<open>
  The specification describes the filter sample by sample, over the reals: the local
  mean is the arithmetic mean over the window of \<open>size\<close> by \<open>size\<close> samples of the
  reflect-padded image around the pixel (rows and columns \<open>p - size div 2\<close> to
  \<open>p + size - size div 2 - 1\<close>, which is centred when \<open>size\<close> is odd).
\<close>

definition fin_arr :: "real list list \<Rightarrow> arr" where
  "fin_arr img = map (map Fin) img"

definition reflect_pad :: "real list list \<Rightarrow> nat \<Rightarrow> nat \<Rightarrow> real list list" where
  "reflect_pad img pad_lo pad_hi =
     (let h = length img; w = ncols img
      in tabulate2 (pad_lo + h + pad_hi) (pad_lo + w + pad_hi)
           (\<lambda>i j. img ! reflect_idx h (int i - int pad_lo) ! reflect_idx w (int j - int pad_lo)))"

definition window_mean :: "real list list \<Rightarrow> nat \<Rightarrow> nat \<Rightarrow> nat \<Rightarrow> real" where
  "window_mean img n r c =
     (let padded = reflect_pad img (n div 2) (n - n div 2 - 1)
      in (\<Sum>i\<leftarrow>[0..<n]. \<Sum>j\<leftarrow>[0..<n]. padded ! (r + i) ! (c + j)) / real (n * n))"

definition local_mean :: "real list list \<Rightarrow> nat \<Rightarrow> nat \<Rightarrow> nat \<Rightarrow> real" where
  "local_mean img n r c = window_mean img n r c"

definition local_sq_mean :: "real list list \<Rightarrow> nat \<Rightarrow> nat \<Rightarrow> nat \<Rightarrow> real" where
  "local_sq_mean img n r c = window_mean (map (map (\<lambda>x. x\<^sup>2)) img) n r c"

definition local_variance :: "real list list \<Rightarrow> nat \<Rightarrow> nat \<Rightarrow> nat \<Rightarrow> real" where
  "local_variance img n r c = local_sq_mean img n r c - (local_mean img n r c)\<^sup>2"

definition overall_variance :: "real list list \<Rightarrow> real" where
  "overall_variance img =
     (let xs = concat img; m = sum_list xs / real (length xs)
      in (\<Sum>x\<leftarrow>xs. (x - m)\<^sup>2) / real (length xs))"




section \<open>Sums, reflection and lines\<close>



lemma reflect_idx_less:
  assumes "0 < n"
  shows "reflect_idx n i < n"
proof -
  define j where "j = i mod (2 * int n)"
  have "0 \<le> j" "j < 2 * int n"
    using assms by (simp_all add: j_def)
  then show ?thesis
    unfolding reflect_idx_def Let_def j_def [symmetric] by auto
qed


lemma length_uniform_line: "length (uniform_line n xs) = length xs"
  by (simp add: uniform_line_def Let_def)



lemma rect_length: "rect h w a \<Longrightarrow> length a = h"
  by (simp add: rect_def)

lemma rect_row: "rect h w a \<Longrightarrow> r < h \<Longrightarrow> length (a ! r) = w"
  by (simp add: rect_def list_all_length)

lemma rect_ncols: "rect h w a \<Longrightarrow> 0 < h \<Longrightarrow> ncols a = w"
  by (cases a) (simp_all add: rect_def ncols_def)

lemma rect_tabulate2: "rect h w (tabulate2 h w f)"
  by (simp add: rect_def tabulate2_def list_all_iff)

lemma tabulate2_nth: "r < h \<Longrightarrow> c < w \<Longrightarrow> tabulate2 h w f ! r ! c = f r c"
  by (simp add: tabulate2_def)

lemma tabulate2_row: "r < h \<Longrightarrow> tabulate2 h w f ! r = map (f r) [0..<w]"
  by (simp add: tabulate2_def)


lemma rect_eq_tabulate2:
  assumes "rect h w a"
  shows "a = tabulate2 h w (\<lambda>r c. a ! r ! c)"
proof (rule nth_equalityI)
  show "length a = length (tabulate2 h w (\<lambda>r c. a ! r ! c))"
    using assms by (simp add: rect_def tabulate2_def)
next
  fix r assume "r < length a"
  then have r: "r < h"
    using assms by (simp add: rect_def)
  then have "length (a ! r) = w"
    using assms by (rule rect_row [rotated])
  then have "a ! r = map (\<lambda>c. a ! r ! c) [0..<w]"
    using map_nth [of "a ! r"] by simp
  then show "a ! r = tabulate2 h w (\<lambda>r c. a ! r ! c) ! r"
    using r by (simp add: tabulate2_row)
qed





section \<open>The two passes of the uniform filter\<close>


lemma fin_arr_nth: "rect h w img \<Longrightarrow> r < h \<Longrightarrow> c < w \<Longrightarrow> fin_arr img ! r ! c = Fin (img ! r ! c)"
  by (simp add: rect_def fin_arr_def list_all_length)







lemma reflect_pad_nth:
  assumes "rect h w img" and "0 < h" and "i < lo + h + hi" and "j < lo + w + hi"
  shows "reflect_pad img lo hi ! i ! j =
         img ! reflect_idx h (int i - int lo) ! reflect_idx w (int j - int lo)"
  using assms by (simp add: reflect_pad_def Let_def rect_length rect_ncols tabulate2_nth)

lemma window_mean_sum:
  assumes "rect h w img" and "r < h" and "c < w" and "0 < n"
  shows "window_mean img n r c =
         (\<Sum>i = 0..<n. \<Sum>j = 0..<n.
            img ! reflect_idx h (int r + int i - int (n div 2))
                ! reflect_idx w (int c + int j - int (n div 2))) / real (n * n)"
proof -
  have cell: "reflect_pad img (n div 2) (n - n div 2 - 1) ! (r + i) ! (c + j) =
        img ! reflect_idx h (int r + int i - int (n div 2))
            ! reflect_idx w (int c + int j - int (n div 2))"
    if "i < n" and "j < n" for i j
  proof -
    have "r + i < n div 2 + h + (n - n div 2 - 1)" and "c + j < n div 2 + w + (n - n div 2 - 1)"
      using assms that by simp_all
    then show ?thesis
      using reflect_pad_nth [OF assms(1), of "r + i" "n div 2" "n - n div 2 - 1" "c + j"] assms(2)
      by simp
  qed
  have "(\<Sum>i\<leftarrow>[0..<n]. \<Sum>j\<leftarrow>[0..<n]. reflect_pad img (n div 2) (n - n div 2 - 1) ! (r + i) ! (c + j)) =
        (\<Sum>i = 0..<n. \<Sum>j = 0..<n. reflect_pad img (n div 2) (n - n div 2 - 1) ! (r + i) ! (c + j))"
    by (simp only: interv_sum_list_conv_sum_set_nat set_upt)
  also have "\<dots> = (\<Sum>i = 0..<n. \<Sum>j = 0..<n.
            img ! reflect_idx h (int r + int i - int (n div 2))
                ! reflect_idx w (int c + int j - int (n div 2)))"
    by (intro sum.cong refl) (simp only: cell atLeastLessThan_iff)
  finally show ?thesis
    unfolding window_mean_def Let_def by (simp only:)
qed


section \<open>The filter on finite samples\<close>

lemma uniform_filter_small: "sz \<le> 1 \<Longrightarrow> uniform_filter a sz = Inr a"
  by (simp add: uniform_filter_def)







lemma rect_map_map: "rect h w img \<Longrightarrow> rect h w (map (map f) img)"
  by (simp add: rect_def list_all_iff)



section \<open>Degenerate inputs\<close>







section \<open>The local variance in exact arithmetic\<close>

text \<open>
  \<open>lee_filter\<close> uses the difference \<open>img_sqr_mean - img_mean**2\<close> as it is. Over the
  reals the mean of the squares of the window is never below the square of its mean, so
  the difference is never negative; a negative value can only come from the rounding
  of floating-point arithmetic, which this development does not model.
\<close>

lemma mean_of_squares_ge:
  fixes f :: "'a \<Rightarrow> real"
  assumes "finite I" and "0 < card I"
  shows "((\<Sum>i\<in>I. f i) / real (card I))\<^sup>2 \<le> (\<Sum>i\<in>I. (f i)\<^sup>2) / real (card I)"
proof -
  define N where "N = real (card I)"
  define m where "m = (\<Sum>i\<in>I. f i) / N"
  have N: "0 < N"
    using assms(2) by (simp add: N_def)
  then have sum_f: "(\<Sum>i\<in>I. f i) = N * m"
    by (simp add: m_def)
  have "0 \<le> (\<Sum>i\<in>I. (f i - m)\<^sup>2)"
    by (rule sum_nonneg) simp
  also have "(\<Sum>i\<in>I. (f i - m)\<^sup>2) = (\<Sum>i\<in>I. (f i)\<^sup>2 - 2 * m * f i + m\<^sup>2)"
    by (rule sum.cong) (simp_all add: power2_diff algebra_simps)
  also have "\<dots> = (\<Sum>i\<in>I. (f i)\<^sup>2) - 2 * m * (\<Sum>i\<in>I. f i) + N * m\<^sup>2"
    by (simp add: sum.distrib sum_subtractf sum_distrib_left N_def)
  also have "\<dots> = (\<Sum>i\<in>I. (f i)\<^sup>2) - N * m\<^sup>2"
    by (simp add: sum_f power2_eq_square algebra_simps)
  finally have "N * m\<^sup>2 \<le> (\<Sum>i\<in>I. (f i)\<^sup>2)"
    by simp
  then have "m\<^sup>2 \<le> (\<Sum>i\<in>I. (f i)\<^sup>2) / N"
    using N by (simp add: pos_le_divide_eq mult.commute)
  then show ?thesis
    by (simp add: m_def N_def)
qed

lemma local_variance_nonneg:
  assumes "rect h w img" and "r < h" and "c < w" and "0 < n"
  shows "0 \<le> local_variance img n r c"
proof -
  let ?I = "{0..<n} \<times> {0..<n}"
  let ?ri = "\<lambda>i. reflect_idx h (int r + int i - int (n div 2))"
  let ?cj = "\<lambda>j. reflect_idx w (int c + int j - int (n div 2))"
  let ?f = "\<lambda>(i, j). img ! ?ri i ! ?cj j"
  have hpos: "0 < h" and wpos: "0 < w"
    using assms(2,3) by auto
  have card: "card ?I = n * n"
    by simp
  have m: "local_mean img n r c = (\<Sum>p\<in>?I. ?f p) / real (card ?I)"
    unfolding local_mean_def window_mean_sum [OF assms] card
    by (simp add: sum.cartesian_product)
  have cell: "map (map (\<lambda>x. x\<^sup>2)) img ! ?ri i ! ?cj j = (img ! ?ri i ! ?cj j)\<^sup>2" for i j
    using assms(1) reflect_idx_less [OF hpos, of "int r + int i - int (n div 2)"]
      reflect_idx_less [OF wpos, of "int c + int j - int (n div 2)"]
    by (simp add: rect_def list_all_length)
  have s: "local_sq_mean img n r c = (\<Sum>p\<in>?I. (?f p)\<^sup>2) / real (card ?I)"
    unfolding local_sq_mean_def window_mean_sum [OF rect_map_map [OF assms(1)] assms(2-4)] card cell
    by (simp add: sum.cartesian_product case_prod_unfold)
  have "0 < card ?I"
    using assms(4) by simp
  with mean_of_squares_ge [of ?I ?f] show ?thesis
    unfolding local_variance_def m s by simp
qed

section \<open>The Lee filter computes the local-statistics formula\<close>



section \<open>Zero variance\<close>




section \<open>Uniform images\<close>




section \<open>Window size 1\<close>




section \<open>Results and shapes for arbitrary samples and sizes\<close>

lemma uniform_filter_value:
  "uniform_filter a sz =
   Inr (if 1 < sz
        then apply_along_axis (Suc 0) (uniform_line (nat sz))
               (apply_along_axis 0 (uniform_line (nat sz)) a)
        else a)"
  by (simp add: uniform_filter_def uniform_filter1d_def)

lemma rect_apply_along_axis:
  assumes "rect h w a"
  shows "rect h w (apply_along_axis axis (uniform_line n) a)"
proof (cases "axis = 0")
  case True
  show ?thesis
  proof (cases "h = 0")
    case True
    with assms show ?thesis
      by (simp add: rect_def apply_along_axis_def)
  next
    case False
    with assms have "ncols a = w" and "length a = h"
      by (simp_all add: rect_ncols rect_length)
    with \<open>axis = 0\<close> show ?thesis
      by (simp add: rect_def apply_along_axis_def Let_def list_all_iff)
  qed
next
  case False
  with assms show ?thesis
    by (simp add: rect_def apply_along_axis_def list_all_iff length_uniform_line)
qed

lemma rect_arr_map2: "rect h w a \<Longrightarrow> rect h w b \<Longrightarrow> rect h w (arr_map2 f a b)"
  by (auto simp: rect_def arr_map2_def list_all_iff dest!: set_zip_leftD set_zip_rightD
      elim!: in_set_zipE)

lemma rect_arr_map: "rect h w a \<Longrightarrow> rect h w (arr_map f a)"
  by (simp add: rect_def arr_map_def list_all_iff)

lemma rect_uniform_filter:
  assumes "rect h w a"
  shows "\<exists>out. uniform_filter a sz = Inr out \<and> rect h w out"
  unfolding uniform_filter_value using assms by (simp add: rect_apply_along_axis)

lemma lee_filter_total: "\<exists>out. lee_filter img sz = Inr out"
  by (simp add: lee_filter_def uniform_filter_value Let_def)

lemma rect_lee_filter:
  assumes "rect h w img" and "lee_filter img sz = Inr out"
  shows "rect h w out"
proof -
  obtain m where m: "uniform_filter img sz = Inr m" "rect h w m"
    using rect_uniform_filter [OF assms(1)] by blast
  have "rect h w (arr_sq img)"
    unfolding arr_sq_def using assms(1) by (rule rect_arr_map)
  then obtain s where s: "uniform_filter (arr_sq img) sz = Inr s" "rect h w s"
    using rect_uniform_filter by blast
  have v: "rect h w (arr_map2 fsub s (arr_sq m))"
    unfolding arr_sq_def using s(2) m(2) by (intro rect_arr_map2 rect_arr_map)
  have "out = arr_map2 fadd m
          (arr_map2 fmul
             (arr_map2 fdiv (arr_map2 fsub s (arr_sq m))
                (arr_map (\<lambda>v. fadd v (np_var img)) (arr_map2 fsub s (arr_sq m))))
             (arr_map2 fsub img m))"
    using assms(2) unfolding lee_filter_def m(1) s(1) by (simp add: Let_def)
  then show ?thesis
    using v m(2) assms(1) by (simp add: rect_arr_map2 rect_arr_map)
qed

lemma collect_map_Inr: "collect (map Inr ys) = Inr ys"
  by (induction ys) simp_all

lemma collect_InrD: "collect xs = Inr ys \<Longrightarrow> xs = map Inr ys"
proof (induction xs arbitrary: ys)
  case Nil
  then show ?case by simp
next
  case (Cons x xs)
  then show ?case
    by (auto split: sum.splits)
qed

lemma collect_Inr_iff: "collect xs = Inr ys \<longleftrightarrow> xs = map Inr ys"
  using collect_InrD collect_map_Inr by blast

lemma collect_map_iff:
  "collect (map f xs) = Inr ys \<longleftrightarrow> list_all2 (\<lambda>x y. f x = Inr y) xs ys"
proof -
  have "map f xs = map Inr ys \<longleftrightarrow> list_all2 (=) (map f xs) (map Inr ys)"
    by (simp only: list.rel_eq)
  then show ?thesis
    by (simp add: collect_Inr_iff list_all2_map1 list_all2_map2)
qed

lemma collect_total:
  assumes "\<And>x. x \<in> set xs \<Longrightarrow> \<exists>y. f x = Inr y"
  shows "\<exists>ys. collect (map f xs) = Inr ys"
  using assms
proof (induction xs)
  case Nil
  show ?case by simp
next
  case (Cons x xs)
  then obtain y ys where "f x = Inr y" and "collect (map f xs) = Inr ys"
    by (meson list.set_intros)
  then show ?case
    by simp
qed

lemma apply_ufunc_total:
  assumes "\<And>a. \<exists>b. f a = Inr b"
  shows "\<exists>res. apply_ufunc f d = Inr res"
proof (induction d)
  case (Core a)
  from assms [of a] show ?case
    by auto
next
  case (Stack xs)
  then have "\<exists>ys. collect (map (apply_ufunc f) xs) = Inr ys"
    by (intro collect_total) auto
  then show ?case
    by auto
qed

lemma list_all2_concat:
  "list_all2 (\<lambda>x y. list_all2 P (g x) (g' y)) xs ys \<Longrightarrow>
   list_all2 P (concat (map g xs)) (concat (map g' ys))"
  by (induction xs ys rule: list_all2_induct) (simp_all add: list_all2_appendI)

lemma apply_ufunc_slices:
  "apply_ufunc f d = Inr res \<Longrightarrow> list_all2 (\<lambda>a b. f a = Inr b) (slices d) (slices res)"
proof (induction d arbitrary: res)
  case (Core a)
  then show ?case
    by (auto split: sum.splits)
next
  case (Stack xs)
  from Stack.prems obtain ys where
    ys: "collect (map (apply_ufunc f) xs) = Inr ys" and res: "res = Stack ys"
    by (auto split: sum.splits)
  from ys have "list_all2 (\<lambda>x y. apply_ufunc f x = Inr y) xs ys"
    by (simp add: collect_map_iff)
  then have "list_all2 (\<lambda>x y. list_all2 (\<lambda>a b. f a = Inr b) (slices x) (slices y)) xs ys"
    using Stack.IH by (auto simp: list_all2_conv_all_nth)
  then show ?case
    unfolding res by (simp add: list_all2_concat)
qed

lemma slices_fillna: "slices (fillna v d) = map (arr_map (\<lambda>x. if x = NaN then v else x)) (slices d)"
  by (induction d) (simp_all add: map_concat comp_def cong: map_cong)

lemma apply_lee_filter_Core:
  "apply_lee_filter (Core a) sz = Inr (Core b) \<longleftrightarrow>
   lee_filter (arr_map (\<lambda>x. if x = NaN then Fin 0 else x) a) sz = Inr b"
  by (auto simp: apply_lee_filter_def split: sum.splits)

lemma apply_lee_filter_total: "\<exists>res. apply_lee_filter d sz = Inr res"
  unfolding apply_lee_filter_def Let_def by (rule apply_ufunc_total) (rule lee_filter_total)

section \<open>Window sizes that the specification calls invalid\<close>

text \<open>
  Claim C6 says that an even, a non-positive or a too large window size is rejected
  with an error. The filter returns an array for the size 0, for the even size 2, and
  for the size 5 on an image of one row and three columns.
\<close>

theorem invalid_size_counterexample:
  "lee_filter (fin_arr [[1, 2], [3, 4]]) 0 = Inr [[Fin 1, Fin 2], [Fin 3, Fin 4]] \<and>
   lee_filter (fin_arr [[1, 2], [3, 4]]) 2 =
     Inr [[Fin 1, Fin (19 / 12)], [Fin (22 / 9), Fin (13 / 4)]] \<and>
   lee_filter (fin_arr [[1, 2, 7]]) 5 =
     Inr [[Fin (1291 / 671), Fin (4554 / 1657), Fin (4213 / 779)]]"
  by code_simp

text \<open>
  Claim C6, as the code has it. For every window size (even, non-positive and larger
  than the image included) \<open>lee_filter\<close> and \<open>apply_lee_filter\<close> raise no error and
  return an array, of the shape of the input when that is rectangular; a size not
  greater than 1 leaves the window statistics equal to the input.
\<close>

theorem lee_filter_accepts_any_size:
  "(\<exists>out. lee_filter img sz = Inr out \<and> (rect h w img \<longrightarrow> rect h w out)) \<and>
   (\<exists>res. apply_lee_filter data_array sz = Inr res) \<and>
   (sz \<le> 1 \<longrightarrow> uniform_filter img sz = Inr img)"
  using lee_filter_total [of img sz] rect_lee_filter [of h w img sz]
    apply_lee_filter_total [of data_array sz] uniform_filter_small [of sz img]
  by blast

theorem lee_filter_accepts_any_size_witness:
  "rect 1 2 [[Fin 1, Fin 2]] \<and> (-3 :: int) \<le> 1 \<and>
   (\<exists>out. lee_filter [[Fin 1, Fin 2]] (-3) = Inr out \<and> rect 1 2 out) \<and>
   (\<exists>res. apply_lee_filter (Stack [Core [[Fin 1, Fin 2]], Core [[NaN, Fin 4]]]) (-3) = Inr res) \<and>
   uniform_filter [[Fin 1, Fin 2]] (-3) = Inr [[Fin 1, Fin 2]]"
proof -
  have r: "rect 1 2 [[Fin 1, Fin 2]]"
    by (simp add: rect_def)
  have z: "(-3 :: int) \<le> 1"
    by simp
  show ?thesis
    using r z
      lee_filter_accepts_any_size [of "[[Fin 1, Fin 2]]" "-3" 1 2
        "Stack [Core [[Fin 1, Fin 2]], Core [[NaN, Fin 4]]]"]
    by simp
qed

section \<open>Slices are filtered independently\<close>

text \<open>
  Claim C7. On an array with extra leading dimensions \<open>apply_lee_filter\<close> returns a
  result whose two-dimensional slices are, one by one and in order, what
  \<open>apply_lee_filter\<close> returns for that slice alone, which is \<open>lee_filter\<close> (with its
  own overall variance) run on the slice with its missing samples replaced by 0; and
  the result for a stack is the stack of the results for its members.
\<close>

theorem apply_lee_filter_per_slice:
  "(\<exists>res. apply_lee_filter data_array sz = Inr res \<and>
      list_all2
        (\<lambda>a b. apply_lee_filter (Core a) sz = Inr (Core b) \<and>
               lee_filter (arr_map (\<lambda>x. if x = NaN then Fin 0 else x) a) sz = Inr b)
        (slices data_array) (slices res)) \<and>
   (\<exists>ys. apply_lee_filter (Stack xs) sz = Inr (Stack ys) \<and>
      list_all2 (\<lambda>x y. apply_lee_filter x sz = Inr y) xs ys)"
proof
  obtain res where res: "apply_lee_filter data_array sz = Inr res"
    using apply_lee_filter_total by blast
  then have "list_all2 (\<lambda>a b. lee_filter a sz = Inr b)
               (slices (fillna (Fin 0) data_array)) (slices res)"
    unfolding apply_lee_filter_def Let_def by (rule apply_ufunc_slices)
  then have "list_all2
        (\<lambda>a b. apply_lee_filter (Core a) sz = Inr (Core b) \<and>
               lee_filter (arr_map (\<lambda>x. if x = NaN then Fin 0 else x) a) sz = Inr b)
        (slices data_array) (slices res)"
    by (simp add: slices_fillna list_all2_map1 apply_lee_filter_Core)
  with res show "\<exists>res. apply_lee_filter data_array sz = Inr res \<and>
      list_all2
        (\<lambda>a b. apply_lee_filter (Core a) sz = Inr (Core b) \<and>
               lee_filter (arr_map (\<lambda>x. if x = NaN then Fin 0 else x) a) sz = Inr b)
        (slices data_array) (slices res)"
    by blast
next
  obtain res where res: "apply_lee_filter (Stack xs) sz = Inr res"
    using apply_lee_filter_total by blast
  then obtain ys where
    ys: "collect (map (apply_ufunc (\<lambda>img. lee_filter img sz)) (map (fillna (Fin 0)) xs)) = Inr ys"
    and "res = Stack ys"
    by (auto simp: apply_lee_filter_def split: sum.splits)
  from ys have "list_all2 (\<lambda>x y. apply_lee_filter x sz = Inr y) xs ys"
    by (simp add: collect_map_iff list_all2_map1 apply_lee_filter_def)
  with res \<open>res = Stack ys\<close>
  show "\<exists>ys. apply_lee_filter (Stack xs) sz = Inr (Stack ys) \<and>
      list_all2 (\<lambda>x y. apply_lee_filter x sz = Inr y) xs ys"
    by blast
qed

theorem apply_lee_filter_per_slice_witness:
  "apply_lee_filter (Stack [Core [[Fin 1, Fin 2]], Core [[NaN, Fin 4]]]) 3 =
     Inr (Stack [Core [[Fin (20 / 17), Fin (31 / 17)]], Core [[Fin (12 / 17), Fin (56 / 17)]]]) \<and>
   apply_lee_filter (Core [[Fin 1, Fin 2]]) 3 = Inr (Core [[Fin (20 / 17), Fin (31 / 17)]]) \<and>
   apply_lee_filter (Core [[NaN, Fin 4]]) 3 = Inr (Core [[Fin (12 / 17), Fin (56 / 17)]]) \<and>
   lee_filter [[Fin 0, Fin 4]] 3 = Inr [[Fin (12 / 17), Fin (56 / 17)]]"
proof -
  have a: "apply_lee_filter (Core [[Fin 1, Fin 2]]) 3 = Inr (Core [[Fin (20 / 17), Fin (31 / 17)]])"
    by code_simp
  have b: "apply_lee_filter (Core [[NaN, Fin 4]]) 3 = Inr (Core [[Fin (12 / 17), Fin (56 / 17)]])"
    by code_simp
  have c: "lee_filter [[Fin 0, Fin 4]] 3 = Inr [[Fin (12 / 17), Fin (56 / 17)]]"
    by code_simp
  from apply_lee_filter_per_slice [of _ 3 "[Core [[Fin 1, Fin 2]], Core [[NaN, Fin 4]]]"]
  obtain ys where
    "apply_lee_filter (Stack [Core [[Fin 1, Fin 2]], Core [[NaN, Fin 4]]]) 3 = Inr (Stack ys)"
    "list_all2 (\<lambda>x y. apply_lee_filter x 3 = Inr y) [Core [[Fin 1, Fin 2]], Core [[NaN, Fin 4]]] ys"
    by blast
  then show ?thesis
    using a b c by (auto simp: list_all2_Cons1)
qed

section \<open>Masking\<close>

lemma feq_zero: "feq m (Fin 0) = (m = Fin 0)"
  by (cases m) simp_all

lemma xr_where_tabulate2:
  "xr_where (tabulate2 h w p) (tabulate2 h w g) y =
   tabulate2 h w (\<lambda>r c. if p r c then g r c else y)"
  by (simp add: xr_where_def tabulate2_def zip_map_map zip_same_conv_map)

text \<open>
  Claim C8. For a mask band and a data band of one shape, the masking step returns a new
  array of that shape: a cell whose mask value is not 0 (the codes 1, 2, 3, the invalid
  value 255, not-a-number or anything else) holds the no-data value NaN, and a cell
  whose mask value is 0 holds the data value unchanged. Each output cell depends on the
  mask cell and the data cell at the same position only.
\<close>

theorem filtered_masked_cells:
  assumes "rect h w mask_band" and "rect h w filtered"
  shows "rect h w (filtered_masked mask_band filtered) \<and>
         (\<forall>r<h. \<forall>c<w. filtered_masked mask_band filtered ! r ! c =
            (if mask_band ! r ! c = Fin 0 then filtered ! r ! c else NaN))"
proof -
  have m: "map (map (\<lambda>m. feq m (Fin 0))) mask_band =
           tabulate2 h w (\<lambda>r c. mask_band ! r ! c = Fin 0)"
    by (subst rect_eq_tabulate2 [OF assms(1)]) (simp add: tabulate2_def feq_zero)
  have "filtered_masked mask_band filtered =
        tabulate2 h w (\<lambda>r c. if mask_band ! r ! c = Fin 0 then filtered ! r ! c else NaN)"
    unfolding filtered_masked_def m
    by (subst rect_eq_tabulate2 [OF assms(2)]) (simp only: xr_where_tabulate2)
  then show ?thesis
    by (simp add: rect_tabulate2 tabulate2_nth)
qed

theorem filtered_masked_cells_witness:
  "rect 2 2 [[Fin 0, Fin 1], [Fin 255, NaN]] \<and> rect 2 2 [[Fin 2, Fin 3], [Fin 4, Fin 5]] \<and>
   filtered_masked [[Fin 0, Fin 1], [Fin 255, NaN]] [[Fin 2, Fin 3], [Fin 4, Fin 5]] ! 0 ! 0 = Fin 2 \<and>
   filtered_masked [[Fin 0, Fin 1], [Fin 255, NaN]] [[Fin 2, Fin 3], [Fin 4, Fin 5]] ! 1 ! 0 = NaN \<and>
   filtered_masked [[Fin 0, Fin 1], [Fin 255, NaN]] [[Fin 2, Fin 3], [Fin 4, Fin 5]] ! 1 ! 1 = NaN"
proof -
  have m: "rect 2 2 [[Fin 0, Fin 1], [Fin 255, NaN]]"
    by (simp add: rect_def)
  have d: "rect 2 2 [[Fin 2, Fin 3], [Fin 4, Fin 5]]"
    by (simp add: rect_def)
  show ?thesis
    using m d filtered_masked_cells [OF m d] by simp
qed

section \<open>Conversion to decibels\<close>

text \<open>
  Claim C9. On positive linear samples the conversion computes \<open>10 * log10 x\<close> cell by
  cell, and raising 10 to a tenth of the result gives the linear sample back (over the
  reals, where the model computes).
\<close>

theorem to_db_round_trip:
  assumes "list_all (list_all (\<lambda>x. 0 < x)) img"
  shows "filtered_masked_db (fin_arr img) = fin_arr (map (map (\<lambda>x. 10 * log 10 x)) img) \<and>
         map (map (\<lambda>x. 10 powr (10 * log 10 x / 10))) img = img"
proof -
  have cell: "to_db (Fin x) = Fin (10 * log 10 x) \<and> 10 powr (10 * log 10 x / 10) = x"
    if "0 < x" for x :: real
    using that by (simp add: to_db_def)
  have row: "map (\<lambda>x. to_db (Fin x)) xs = map (\<lambda>x. Fin (10 * log 10 x)) xs \<and>
             map (\<lambda>x. 10 powr (10 * log 10 x / 10)) xs = xs"
    if "list_all (\<lambda>x. 0 < x) xs" for xs :: "real list"
    using that cell by (induction xs) simp_all
  have "map (map (\<lambda>x. to_db (Fin x))) img = map (map (\<lambda>x. Fin (10 * log 10 x))) img \<and>
        map (map (\<lambda>x. 10 powr (10 * log 10 x / 10))) img = img"
    using assms
  proof (induction img)
    case Nil
    show ?case by simp
  next
    case (Cons xs img)
    from Cons.prems have "list_all (\<lambda>x. 0 < x) xs" and "list_all (list_all (\<lambda>x. 0 < x)) img"
      by simp_all
    with Cons.IH row [of xs] show ?case
      by simp
  qed
  then show ?thesis
    by (simp add: filtered_masked_db_def arr_map_def fin_arr_def o_def)
qed

theorem to_db_round_trip_witness:
  "list_all (list_all (\<lambda>x. 0 < x)) [[1, 10 :: real]] \<and>
   filtered_masked_db (fin_arr [[1, 10]]) = [[Fin 0, Fin 10]] \<and>
   map (map (\<lambda>x. 10 powr (10 * log 10 x / 10))) [[1, 10 :: real]] = [[1, 10]]"
proof -
  have h: "list_all (list_all (\<lambda>x. 0 < x)) [[1, 10 :: real]]"
    by simp
  show ?thesis
    using h to_db_round_trip [OF h] by (simp add: fin_arr_def)
qed

section \<open>Reflection at the image boundary\<close>



end
